theory Spec2Isabelle
  imports Main "HOL-Library.AList"
begin

section \<open>Strings\<close>

text \<open>
  A JavaScript string is modelled as a \<^typ>\<open>string\<close>: the list of its code units, for the
  code units below 256 (U+0000 to U+00FF). The string methods the extension calls are
  written out on that fragment.
\<close>

text \<open>\<^verbatim>\<open>s.includes(sub)\<close>: \<open>sub\<close> occurs in \<open>s\<close> as a contiguous run; the empty string
  occurs in every string.\<close>

fun str_includes :: "string \<Rightarrow> string \<Rightarrow> bool" where
  "str_includes [] sub = (sub = [])"
| "str_includes (c # cs) sub = (take (length sub) (c # cs) = sub \<or> str_includes cs sub)"

text \<open>\<^verbatim>\<open>s.endsWith(suf)\<close>.\<close>

definition str_endsWith :: "string \<Rightarrow> string \<Rightarrow> bool" where
  "str_endsWith s suf = (length suf \<le> length s \<and> drop (length s - length suf) s = suf)"

text \<open>The white space and line terminators that \<^verbatim>\<open>trim()\<close> strips, below U+0100: tab, line
  feed, vertical tab, form feed, carriage return, space and no-break space.\<close>

definition isWhiteSpace :: "char \<Rightarrow> bool" where
  "isWhiteSpace c = (c \<in> set [CHR 0x09, CHR 0x0A, CHR 0x0B, CHR 0x0C, CHR 0x0D, CHR 0x20, CHR 0xA0])"

definition str_trim :: "string \<Rightarrow> string" where
  "str_trim s = rev (dropWhile isWhiteSpace (rev (dropWhile isWhiteSpace s)))"

text \<open>\<^verbatim>\<open>s.toLowerCase()\<close>: the letters A to Z and the Latin-1 capitals U+00C0 to U+00DE
  (the multiplication sign U+00D7 apart) move up by 32; every other code unit stays.\<close>

definition lowerChar :: "char \<Rightarrow> char" where
  "lowerChar c =
     (let n = (of_char c :: nat)
      in if (65 \<le> n \<and> n \<le> 90) \<or> (192 \<le> n \<and> n \<le> 222 \<and> n \<noteq> 215) then char_of (n + 32) else c)"

definition str_toLowerCase :: "string \<Rightarrow> string" where
  "str_toLowerCase s = map lowerChar s"

text \<open>\<^verbatim>\<open>s.split(sep)\<close> for a one-character separator: the pieces between the separators,
  so a string with \<open>n\<close> separators has \<open>n + 1\<close> pieces and the empty string has the one piece
  \<open>''''\<close>. \<open>acc\<close> is the current piece, reversed.\<close>

fun split_acc :: "char \<Rightarrow> string \<Rightarrow> string \<Rightarrow> string list" where
  "split_acc sep acc [] = [rev acc]"
| "split_acc sep acc (c # cs) =
     (if c = sep then rev acc # split_acc sep [] cs else split_acc sep (c # acc) cs)"

definition str_split :: "string \<Rightarrow> char \<Rightarrow> string list" where
  "str_split s sep = split_acc sep [] s"

section \<open>Data model\<close>

text \<open>
  The counters are JavaScript numbers that only ever hold integers; they are \<^typ>\<open>int\<close>
  here (the code subtracts them), which is exact for the source's doubles as long as the
  counters stay below \<open>2^53\<close>. The value type of \<^verbatim>\<open>fileStats\<close>,
  \<^verbatim>\<open>{ totalLines: number; copilotLines: number }\<close>, is \<open>LineStats\<close>, and
  \<^verbatim>\<open>interface CopilotStats\<close> extends it with \<^verbatim>\<open>lastUpdated\<close> and \<^verbatim>\<open>fileStats\<close>.

  \<^verbatim>\<open>fileStats\<close> is a JavaScript object used as a dictionary from paths to records: an
  association list in insertion order, which is the order \<^verbatim>\<open>JSON.stringify\<close> walks.
  \<^verbatim>\<open>fileStats[p]\<close> is \<^term>\<open>map_of fs p\<close> and \<^verbatim>\<open>fileStats[p] = r\<close> is
  \<^term>\<open>AList.update p r fs\<close> (in place for a key that is there, at the end for a new
  one). Keys that name a property of \<^verbatim>\<open>Object.prototype\<close> are outside the model.
\<close>

record LineStats =
  totalLines :: int
  copilotLines :: int

record CopilotStats = LineStats +
  lastUpdated :: string
  fileStats :: "(string \<times> LineStats) list"

text \<open>\<^verbatim>\<open>interface RepositoryStats\<close>; its fields \<^verbatim>\<open>stats\<close> and \<^verbatim>\<open>lastUpdated\<close> carry the
  prefix \<open>rs_\<close> here, the plain names being taken.\<close>

record RepositoryStats =
  rs_stats :: CopilotStats
  repository :: string
  rs_lastUpdated :: string

text \<open>What the extension does to the world outside its variables, in the order it does
  it: \<^verbatim>\<open>context.globalState.update('copilotStats', v)\<close> (\<open>None\<close> for \<^verbatim>\<open>undefined\<close>),
  \<^verbatim>\<open>clearTimeout\<close>, \<^verbatim>\<open>setTimeout(saveStatsToFile, 5000)\<close>, \<^verbatim>\<open>fs.writeFileSync\<close> of a
  \<^verbatim>\<open>RepositoryStats\<close> to a path, and \<^verbatim>\<open>console.error\<close>.\<close>

datatype effect =
  GlobalStateUpdate "CopilotStats option"
| ClearTimeout
| SetTimeout
| WriteFile string RepositoryStats
| ConsoleError

text \<open>
  What the host (editor, Node library, file system) answers when the extension asks:
  the paths of the workspace folders, the value of the setting
  \<^verbatim>\<open>copilotLineTracking.trackedExtensions\<close> (\<open>None\<close> when it has none),
  \<^verbatim>\<open>JSON.stringify\<close> on the statistics, \<^verbatim>\<open>path.join\<close>, \<^verbatim>\<open>path.basename\<close>, and whether
  \<^verbatim>\<open>fs.writeFileSync\<close> throws.
\<close>

record host =
  workspaceFolders :: "string list"
  trackedExtensionsSetting :: "string list option"
  stringify :: "CopilotStats \<Rightarrow> string"
  path_join :: "string \<Rightarrow> string \<Rightarrow> string"
  path_basename :: "string \<Rightarrow> string"
  writeFileSyncThrows :: bool

text \<open>The variables that \<^verbatim>\<open>activate\<close> declares and its closures share, and the effects so
  far. \<^verbatim>\<open>saveTimeout\<close> is a timer handle or \<^verbatim>\<open>undefined\<close>; the code only tests whether it
  is set.\<close>

record tracker =
  stats :: CopilotStats
  lastSavedStats :: string
  saveTimeout :: bool
  lastCopilotSuggestion :: "string option"
  isAcceptingSuggestion :: bool
  pendingCopilotLines :: int
  effects :: "effect list"

text \<open>A \<^verbatim>\<open>vscode.TextDocument\<close>, as far as the extension reads it: \<^verbatim>\<open>uri.fsPath\<close> and
  \<^verbatim>\<open>lineCount\<close>, the number of lines of the document.\<close>

record document =
  fsPath :: string
  lineCount :: nat

text \<open>A \<^verbatim>\<open>TextDocumentChangeEvent\<close>: the document and the \<^verbatim>\<open>text\<close> of each of its
  \<^verbatim>\<open>contentChanges\<close>, in order.\<close>

record changeEvent =
  ev_document :: document
  contentChanges :: "string list"

section \<open>The extension\<close>

text \<open>The statistics \<^verbatim>\<open>activate\<close> starts from when nothing is stored, and \<^verbatim>\<open>clearStats\<close>
  resets to; \<open>now\<close> is \<^verbatim>\<open>new Date().toISOString()\<close>.\<close>

definition emptyStats :: "string \<Rightarrow> CopilotStats" where
  "emptyStats now = \<lparr>totalLines = 0, copilotLines = 0, lastUpdated = now, fileStats = []\<rparr>"

definition defaultTrackedExtensions :: "string list" where
  "defaultTrackedExtensions =
     [''.js'', ''.jsx'', ''.ts'', ''.tsx'', ''.py'', ''.java'', ''.c'', ''.cpp'', ''.h'', ''.hpp'',
      ''.cs'', ''.go'', ''.rb'', ''.php'', ''.swift'', ''.kt'', ''.rs'', ''.dart'', ''.vue'',
      ''.html'', ''.css'', ''.scss'', ''.sass'', ''.less'', ''.json'', ''.xml'', ''.yaml'',
      ''.yml'', ''.md'', ''.sql'', ''.sh'', ''.bash'', ''.ps1'', ''.schema'']"

text \<open>\<^verbatim>\<open>config.get<string[]>('trackedExtensions', [...])\<close>.\<close>

definition trackedExtensions :: "host \<Rightarrow> string list" where
  "trackedExtensions h =
     (case trackedExtensionsSetting h of None \<Rightarrow> defaultTrackedExtensions | Some exts \<Rightarrow> exts)"

text \<open>\<^verbatim>\<open>shouldTrackFile\<close>. \<open>CHR 0x5C\<close> is the backslash.\<close>

definition shouldTrackFile :: "host \<Rightarrow> string \<Rightarrow> bool" where
  "shouldTrackFile h filePath =
     (if str_includes filePath ''/response_'' \<or> str_includes filePath (CHR 0x5C # ''response_'')
      then False
      else if str_includes filePath ''/.git/''
           \<or> str_includes filePath (CHR 0x5C # ''.git'' @ [CHR 0x5C])
      then False
      else if str_includes filePath ''/node_modules/''
           \<or> str_includes filePath (CHR 0x5C # ''node_modules'' @ [CHR 0x5C])
      then False
      else if str_endsWith filePath ''.copilot-stats.json''
      then False
      else list_ex (\<lambda>ext. str_endsWith (str_toLowerCase filePath) ext) (trackedExtensions h))"

definition getRepositoryRoot :: "host \<Rightarrow> string option" where
  "getRepositoryRoot h = (case workspaceFolders h of [] \<Rightarrow> None | folder # _ \<Rightarrow> Some folder)"

text \<open>\<^verbatim>\<open>saveStatsToFile\<close>; \<open>now\<close> is the time it would stamp the file with.
  \<^verbatim>\<open>!repoRoot\<close> holds for \<^verbatim>\<open>undefined\<close> and for the empty path. A write that throws is
  caught and logged, and \<^verbatim>\<open>lastSavedStats\<close> keeps its value.\<close>

definition saveStatsToFile :: "host \<Rightarrow> string \<Rightarrow> tracker \<Rightarrow> tracker" where
  "saveStatsToFile h now s =
     (case getRepositoryRoot h of
        None \<Rightarrow> s
      | Some repoRoot \<Rightarrow>
          (let currentStats = stringify h (stats s)
           in if repoRoot = [] then s
              else if currentStats = lastSavedStats s then s
              else
                (let statsFilePath = path_join h repoRoot ''.copilot-stats.json'';
                     repositoryStats =
                       \<lparr>rs_stats = stats s, repository = path_basename h repoRoot,
                        rs_lastUpdated = now\<rparr>
                 in if writeFileSyncThrows h
                    then s\<lparr>effects := effects s @ [ConsoleError]\<rparr>
                    else s\<lparr>lastSavedStats := currentStats,
                           effects := effects s @ [WriteFile statsFilePath repositoryStats]\<rparr>)))"

text \<open>\<^verbatim>\<open>clearStats\<close>; \<open>now\<close> is the time it reads, \<open>now'\<close> the time \<^verbatim>\<open>saveStatsToFile\<close> would
  read after it.\<close>

definition clearStats :: "host \<Rightarrow> string \<Rightarrow> string \<Rightarrow> tracker \<Rightarrow> tracker" where
  "clearStats h now now' s =
     (let s1 = s\<lparr>stats := emptyStats now\<rparr>;
          s2 = s1\<lparr>lastSavedStats := stringify h (stats s1)\<rparr>;
          s3 = s2\<lparr>effects := effects s2 @ [GlobalStateUpdate None]\<rparr>
      in saveStatsToFile h now' s3)"

text \<open>\<^verbatim>\<open>scheduleSave\<close>: the pending timer, if the variable holds one, is cleared and a new
  one is set. The timer's callback is \<^verbatim>\<open>saveStatsToFile\<close>, five seconds later.\<close>

definition scheduleSave :: "tracker \<Rightarrow> tracker" where
  "scheduleSave s =
     (let s1 = (if saveTimeout s then s\<lparr>effects := effects s @ [ClearTimeout]\<rparr> else s)
      in s1\<lparr>saveTimeout := True, effects := effects s1 @ [SetTimeout]\<rparr>)"

definition saveStats :: "tracker \<Rightarrow> tracker" where
  "saveStats s = scheduleSave (s\<lparr>effects := effects s @ [GlobalStateUpdate (Some (stats s))]\<rparr>)"

text \<open>The first statement of both \<^verbatim>\<open>updateFileStats\<close> and the attribution block:
  \<^verbatim>\<open>if (!stats.fileStats[filePath]) stats.fileStats[filePath] = {totalLines: 0, copilotLines: 0}\<close>.\<close>

definition ensureFileStats :: "string \<Rightarrow> CopilotStats \<Rightarrow> CopilotStats" where
  "ensureFileStats filePath st =
     (case map_of (fileStats st) filePath of
        None \<Rightarrow> st\<lparr>fileStats := AList.update filePath \<lparr>totalLines = 0, copilotLines = 0\<rparr> (fileStats st)\<rparr>
      | Some _ \<Rightarrow> st)"

text \<open>\<^verbatim>\<open>stats.fileStats[filePath]\<close> once the record is there.\<close>

definition fileRecord :: "CopilotStats \<Rightarrow> string \<Rightarrow> LineStats" where
  "fileRecord st filePath =
     (case map_of (fileStats st) filePath of
        None \<Rightarrow> \<lparr>totalLines = 0, copilotLines = 0\<rparr>
      | Some r \<Rightarrow> r)"

text \<open>\<^verbatim>\<open>updateFileStats\<close>; \<open>now\<close> is the time it reads when the total changes. The steps
  follow the source one by one: \<open>st1\<close> after the record is ensured, \<open>st2\<close> after the new
  total is stored, \<open>st3\<close> and \<open>pending3\<close> after the pending lines are taken, \<open>st4\<close> after
  the clamp.\<close>

definition updateFileStats :: "host \<Rightarrow> string \<Rightarrow> document \<Rightarrow> tracker \<Rightarrow> tracker" where
  "updateFileStats h now doc s =
     (let filePath = fsPath doc
      in if \<not> shouldTrackFile h filePath then s
         else
           (let lineCnt = int (lineCount doc);
                st1 = ensureFileStats filePath (stats s);
                oldTotal = totalLines (fileRecord st1 filePath)
            in if oldTotal \<noteq> lineCnt then
                 (let st2 = st1\<lparr>fileStats :=
                                  AList.update filePath
                                    ((fileRecord st1 filePath)\<lparr>totalLines := lineCnt\<rparr>) (fileStats st1),
                               totalLines := totalLines st1 - oldTotal + lineCnt\<rparr>;
                      taken = min (pendingCopilotLines s) lineCnt;
                      st3 = (if oldTotal = 0 \<and> pendingCopilotLines s > 0
                             then st2\<lparr>fileStats :=
                                        AList.update filePath
                                          ((fileRecord st2 filePath)\<lparr>copilotLines := taken\<rparr>)
                                          (fileStats st2),
                                      copilotLines := copilotLines st2 + taken\<rparr>
                             else st2);
                      pending3 = (if oldTotal = 0 \<and> pendingCopilotLines s > 0
                                  then 0 else pendingCopilotLines s);
                      fileCopilot = copilotLines (fileRecord st3 filePath);
                      st4 = (if fileCopilot > lineCnt
                             then st3\<lparr>fileStats :=
                                        AList.update filePath
                                          ((fileRecord st3 filePath)\<lparr>copilotLines := lineCnt\<rparr>)
                                          (fileStats st3),
                                      copilotLines := copilotLines st3 - (fileCopilot - lineCnt)\<rparr>
                             else st3)
                  in saveStats (s\<lparr>stats := st4\<lparr>lastUpdated := now\<rparr>,
                                  pendingCopilotLines := pending3\<rparr>))
               else s\<lparr>stats := st1\<rparr>))"

text \<open>\<^verbatim>\<open>countNonEmptyLines\<close>. \<open>CHR 0x0A\<close> is the line feed.\<close>

definition countNonEmptyLines :: "string \<Rightarrow> nat" where
  "countNonEmptyLines text =
     length (filter (\<lambda>line. length (str_trim line) > 0) (str_split text (CHR 0x0A)))"

text \<open>\<^verbatim>\<open>provideInlineCompletionItems\<close>: \<open>automatic\<close> says whether the trigger kind is
  \<^verbatim>\<open>Automatic\<close>, \<open>currentLine\<close> is \<^verbatim>\<open>document.lineAt(position.line).text\<close>.\<close>

definition provideInlineCompletionItems :: "bool \<Rightarrow> string \<Rightarrow> tracker \<Rightarrow> tracker" where
  "provideInlineCompletionItems automatic currentLine s =
     (if automatic
      then s\<lparr>lastCopilotSuggestion := Some currentLine, isAcceptingSuggestion := True\<rparr>
      else s)"

text \<open>The six characters one of which ends a "complete statement":
  \<^verbatim>\<open>;\<close>, \<^verbatim>\<open>}\<close>, \<^verbatim>\<open>)\<close>, \<^verbatim>\<open>]\<close>, the double quote (\<open>CHR 0x22\<close>) and the single quote
  (\<open>CHR 0x27\<close>).\<close>

definition isCompleteStatement :: "string \<Rightarrow> bool" where
  "isCompleteStatement newText =
     (str_endsWith (str_trim newText) '';''
      \<or> str_endsWith (str_trim newText) ''}''
      \<or> str_endsWith (str_trim newText) '')''
      \<or> str_endsWith (str_trim newText) '']''
      \<or> str_endsWith (str_trim newText) [CHR 0x22]
      \<or> str_endsWith (str_trim newText) [CHR 0x27])"

text \<open>The callback the change handler gives to \<^verbatim>\<open>contentChanges.some\<close>, on the text of one
  change: its verdict and the variables after it. \<^verbatim>\<open>lastCopilotSuggestion && ...\<close> is
  false for \<^verbatim>\<open>undefined\<close> and for the empty string.\<close>

definition classifyChange :: "string \<Rightarrow> tracker \<Rightarrow> bool \<times> tracker" where
  "classifyChange newText s =
     (if isAcceptingSuggestion s then (True, s\<lparr>isAcceptingSuggestion := False\<rparr>)
      else
        (case lastCopilotSuggestion s of
           Some suggestion \<Rightarrow>
             if suggestion \<noteq> [] \<and> str_includes newText suggestion
             then (True, s\<lparr>lastCopilotSuggestion := None\<rparr>)
             else (str_includes newText [CHR 0x0A] \<or> isCompleteStatement newText, s)
         | None \<Rightarrow> (str_includes newText [CHR 0x0A] \<or> isCompleteStatement newText, s)))"

text \<open>\<^verbatim>\<open>event.contentChanges.some(callback)\<close>: the callback runs on the changes in order
  and stops at the first one it accepts.\<close>

fun isCopilotChange :: "string list \<Rightarrow> tracker \<Rightarrow> bool \<times> tracker" where
  "isCopilotChange [] s = (False, s)"
| "isCopilotChange (newText # rest) s =
     (case classifyChange newText s of
        (True, s') \<Rightarrow> (True, s')
      | (False, s') \<Rightarrow> isCopilotChange rest s')"

text \<open>\<^verbatim>\<open>event.contentChanges.reduce((count, change) => count + countNonEmptyLines(change.text), 0)\<close>.\<close>

definition newLines :: "string list \<Rightarrow> nat" where
  "newLines changes = foldl (\<lambda>count newText. count + countNonEmptyLines newText) 0 changes"

text \<open>The body of \<^verbatim>\<open>if (isCopilotChange) { ... }\<close> in the change handler, which the
  specification calls \<open>applyAiLines\<close>: \<open>n\<close> is \<^verbatim>\<open>newLines\<close>, \<open>now\<close> the time read on a
  commit.\<close>

definition applyAiLines :: "string \<Rightarrow> string \<Rightarrow> nat \<Rightarrow> tracker \<Rightarrow> tracker" where
  "applyAiLines now filePath n s =
     (let st1 = ensureFileStats filePath (stats s);
          s1 = s\<lparr>stats := st1\<rparr>
      in if n > 0 then
           (if totalLines (fileRecord st1 filePath) = 0
            then s1\<lparr>pendingCopilotLines := pendingCopilotLines s1 + int n\<rparr>
            else
              (let currentTotal = totalLines (fileRecord st1 filePath);
                   currentCopilot = copilotLines (fileRecord st1 filePath);
                   newCopilotTotal = currentCopilot + int n
               in if newCopilotTotal \<le> currentTotal
                  then saveStats
                         (s1\<lparr>stats := st1\<lparr>fileStats :=
                                            AList.update filePath
                                              ((fileRecord st1 filePath)\<lparr>copilotLines := newCopilotTotal\<rparr>)
                                              (fileStats st1),
                                          copilotLines := copilotLines st1 + int n,
                                          lastUpdated := now\<rparr>\<rparr>)
                  else s1))
         else s1)"

text \<open>The handler of \<^verbatim>\<open>onDidChangeTextDocument\<close>; \<open>now\<close> is the time the attribution
  block reads, \<open>now'\<close> the time \<^verbatim>\<open>updateFileStats\<close> reads after it.\<close>

definition onDidChangeTextDocument :: "host \<Rightarrow> string \<Rightarrow> string \<Rightarrow> changeEvent \<Rightarrow> tracker \<Rightarrow> tracker" where
  "onDidChangeTextDocument h now now' ev s =
     (let doc = ev_document ev;
          filePath = fsPath doc
      in if \<not> shouldTrackFile h filePath then s
         else
           (case isCopilotChange (contentChanges ev) s of
              (True, s1) \<Rightarrow>
                updateFileStats h now' doc
                  (applyAiLines now filePath (newLines (contentChanges ev)) s1)
            | (False, s1) \<Rightarrow> updateFileStats h now' doc s1))"

text \<open>The handler of \<^verbatim>\<open>onDidOpenTextDocument\<close>.\<close>

definition onDidOpenTextDocument :: "host \<Rightarrow> string \<Rightarrow> document \<Rightarrow> tracker \<Rightarrow> tracker" where
  "onDidOpenTextDocument h now doc s = updateFileStats h now doc s"

text \<open>The handler of \<^verbatim>\<open>onDidChangeConfiguration\<close>: \<open>affects\<close> is
  \<^verbatim>\<open>event.affectsConfiguration('copilotLineTracking')\<close>, \<open>docs\<close> are the open documents
  (\<^verbatim>\<open>vscode.workspace.textDocuments\<close>), each with the time \<^verbatim>\<open>updateFileStats\<close> reads on it.\<close>

definition onDidChangeConfiguration ::
    "host \<Rightarrow> bool \<Rightarrow> (string \<times> document) list \<Rightarrow> tracker \<Rightarrow> tracker" where
  "onDidChangeConfiguration h affects docs s =
     (if affects then foldl (\<lambda>s' (now, doc). updateFileStats h now doc s') s docs else s)"

text \<open>\<^verbatim>\<open>loadStats\<close>, that is \<^verbatim>\<open>context.globalState.get('copilotStats')\<close>: the slot holds what
  the last \<^verbatim>\<open>globalState.update\<close> among the effects so far put there, and nothing before
  the first one.\<close>

definition loadStats :: "effect list \<Rightarrow> CopilotStats option" where
  "loadStats effs = foldl (\<lambda>cur e. case e of GlobalStateUpdate v \<Rightarrow> v | _ \<Rightarrow> cur) None effs"

text \<open>\<^verbatim>\<open>activate\<close>, as far as it sets the variables: \<open>effs\<close> are the effects of the
  sessions before this one, \<open>now\<close> is the time read when nothing is stored, \<open>now'\<close> the
  time of the initial \<^verbatim>\<open>saveStatsToFile\<close>.\<close>

definition activate :: "host \<Rightarrow> string \<Rightarrow> string \<Rightarrow> effect list \<Rightarrow> tracker" where
  "activate h now now' effs =
     (let st = (case loadStats effs of None \<Rightarrow> emptyStats now | Some loaded \<Rightarrow> loaded)
      in saveStatsToFile h now'
           \<lparr>stats = st, lastSavedStats = stringify h st, saveTimeout = False,
            lastCopilotSuggestion = None, isAcceptingSuggestion = False,
            pendingCopilotLines = 0, effects = effs\<rparr>)"

section \<open>Sessions\<close>

text \<open>
  What the host can make the extension do, one event at a time (section 5 of the
  specification: each is handled to completion before the next): start it again in a new
  process, deliver an edit, an opened document or a configuration change, ask for inline
  completions, let the save timer fire, run the clear command. Every event carries what
  the host answers during it. A timer event is allowed at any time; a timer that is not
  pending only runs \<^verbatim>\<open>saveStatsToFile\<close> once more.
\<close>

datatype event =
  Activate host string string
| DidChangeTextDocument host string string changeEvent
| DidOpenTextDocument host string document
| DidChangeConfiguration host bool "(string \<times> document) list"
| InlineCompletionRequested bool string
| SaveTimerFired host string
| ClearStatsCommand host string string

fun step :: "event \<Rightarrow> tracker \<Rightarrow> tracker" where
  "step (Activate h now now') s = activate h now now' (effects s)"
| "step (DidChangeTextDocument h now now' ev) s = onDidChangeTextDocument h now now' ev s"
| "step (DidOpenTextDocument h now doc) s = onDidOpenTextDocument h now doc s"
| "step (DidChangeConfiguration h affects docs) s = onDidChangeConfiguration h affects docs s"
| "step (InlineCompletionRequested automatic currentLine) s =
     provideInlineCompletionItems automatic currentLine s"
| "step (SaveTimerFired h now) s = saveStatsToFile h now s"
| "step (ClearStatsCommand h now now') s = clearStats h now now' s"

text \<open>The state after the events \<open>es\<close>, from the first activation on a slot that holds
  nothing.\<close>

definition session :: "host \<Rightarrow> string \<Rightarrow> string \<Rightarrow> event list \<Rightarrow> tracker" where
  "session h now now' es = foldl (\<lambda>s e. step e s) (activate h now now' []) es"


section \<open>Properties of the statistics\<close>

text \<open>The bound the specification asks of every pair of counters, the aggregate pair
  and the pair of each file: \<open>0 \<le> copilotLines \<le> totalLines\<close>.\<close>

definition recordBounds :: "'a LineStats_scheme \<Rightarrow> bool" where
  "recordBounds r = (0 \<le> copilotLines r \<and> copilotLines r \<le> totalLines r)"

definition filesBounds :: "(string \<times> LineStats) list \<Rightarrow> bool" where
  "filesBounds fs = (\<forall>(p, r) \<in> set fs. recordBounds r)"

definition statsBounds :: "CopilotStats \<Rightarrow> bool" where
  "statsBounds st = (recordBounds st \<and> filesBounds (fileStats st))"

text \<open>The sums of the per-file counters, and the invariant that the aggregate counters
  equal them.\<close>

definition sumTotal :: "(string \<times> LineStats) list \<Rightarrow> int" where
  "sumTotal fs = sum_list (map (\<lambda>(p, r). totalLines r) fs)"

definition sumCopilot :: "(string \<times> LineStats) list \<Rightarrow> int" where
  "sumCopilot fs = sum_list (map (\<lambda>(p, r). copilotLines r) fs)"

definition sumsInv :: "CopilotStats \<Rightarrow> bool" where
  "sumsInv st =
     (totalLines st = sumTotal (fileStats st) \<and> copilotLines st = sumCopilot (fileStats st))"

text \<open>The first of the two sums alone.\<close>

definition totalsInv :: "CopilotStats \<Rightarrow> bool" where
  "totalsInv st = (totalLines st = sumTotal (fileStats st))"

text \<open>Statistics with every bound and both sums; a tracker whose statistics, and whose
  stored statistics if the slot holds any, are such.\<close>

definition consistent :: "CopilotStats \<Rightarrow> bool" where
  "consistent st = (statsBounds st \<and> sumsInv st)"

definition sessionInv :: "tracker \<Rightarrow> bool" where
  "sessionInv s =
     (consistent (stats s)
      \<and> (case loadStats (effects s) of None \<Rightarrow> True | Some stored \<Rightarrow> consistent stored))"

text \<open>The record of a path in a list of file records, with the fresh record for a path
  that has none: \<^const>\<open>fileRecord\<close> on the list alone.\<close>

definition lookupFile :: "(string \<times> LineStats) list \<Rightarrow> string \<Rightarrow> LineStats" where
  "lookupFile fs p =
     (case map_of fs p of None \<Rightarrow> \<lparr>totalLines = 0, copilotLines = 0\<rparr> | Some r \<Rightarrow> r)"

text \<open>The classifier as the specification words it (section 4.1): the accepting flag
  first, then a suggestion text that "is set" and contained in the inserted text, then
  the shape of the text: more than one line, or a trimmed form that ends with one of the
  six characters.\<close>

definition classifyChange_spec :: "string \<Rightarrow> tracker \<Rightarrow> bool \<times> tracker" where
  "classifyChange_spec newText s =
     (if isAcceptingSuggestion s then (True, s\<lparr>isAcceptingSuggestion := False\<rparr>)
      else if (case lastCopilotSuggestion s of
                 None \<Rightarrow> False
               | Some suggestion \<Rightarrow> str_includes newText suggestion)
      then (True, s\<lparr>lastCopilotSuggestion := None\<rparr>)
      else (CHR 0x0A \<in> set newText
            \<or> (str_trim newText \<noteq> []
               \<and> last (str_trim newText) \<in> set [CHR '';'', CHR ''}'', CHR '')'', CHR '']'', CHR 0x22, CHR 0x27]), s))"

text \<open>The specification's "for each inserted text span": every span of the event is
  classified, in order, each on the variables the one before left; the event's verdict is
  that of some span.\<close>

fun classifyEvery_spec :: "string list \<Rightarrow> tracker \<Rightarrow> bool \<times> tracker" where
  "classifyEvery_spec [] s = (False, s)"
| "classifyEvery_spec (newText # rest) s =
     (case classifyChange_spec newText s of
        (verdict, s') \<Rightarrow>
          (case classifyEvery_spec rest s' of (verdict', s'') \<Rightarrow> (verdict \<or> verdict', s'')))"

section \<open>Example inputs\<close>

text \<open>A host with one workspace folder, no setting for the tracked extensions and a file
  system that accepts writes. Its \<^verbatim>\<open>JSON.stringify\<close> writes the counters in unary, the
  time stamp and the paths; no result below depends on which function it is.\<close>

definition exStringify :: "CopilotStats \<Rightarrow> string" where
  "exStringify st =
     replicate (nat (totalLines st)) CHR ''t'' @ replicate (nat (copilotLines st)) CHR ''c''
     @ lastUpdated st
     @ concat (map (\<lambda>(p, r). p @ replicate (nat (totalLines r)) CHR ''t''
                                @ replicate (nat (copilotLines r)) CHR ''c'') (fileStats st))"

definition exHost :: host where
  "exHost =
     \<lparr>workspaceFolders = [''/w''], trackedExtensionsSetting = None, stringify = exStringify,
      path_join = (\<lambda>dir name. dir @ ''/'' @ name), path_basename = (\<lambda>p. drop 1 p),
      writeFileSyncThrows = False\<rparr>"

text \<open>A tracker that holds the statistics \<open>st\<close> and \<open>pending\<close> pending lines, with
  nothing saved, scheduled or offered.\<close>

definition exTracker :: "CopilotStats \<Rightarrow> int \<Rightarrow> tracker" where
  "exTracker st pending =
     \<lparr>stats = st, lastSavedStats = '''', saveTimeout = False, lastCopilotSuggestion = None,
      isAcceptingSuggestion = False, pendingCopilotLines = pending, effects = []\<rparr>"

text \<open>Statistics with the one file \<open>/w/a.ts\<close>: the aggregate counters \<open>T\<close> and \<open>C\<close>, the
  file's counters \<open>t\<close> and \<open>c\<close>.\<close>

definition exStats :: "int \<Rightarrow> int \<Rightarrow> int \<Rightarrow> int \<Rightarrow> CopilotStats" where
  "exStats T C t c =
     \<lparr>totalLines = T, copilotLines = C, lastUpdated = ''2024-01-01T00:00:00.000Z'',
      fileStats = [(''/w/a.ts'', \<lparr>totalLines = t, copilotLines = c\<rparr>)]\<rparr>"

text \<open>The document at \<open>/w/a.ts\<close> with \<open>n\<close> lines.\<close>

definition exDoc :: "nat \<Rightarrow> document" where
  "exDoc n = \<lparr>fsPath = ''/w/a.ts'', lineCount = n\<rparr>"

text \<open>An edit of \<open>/w/a.ts\<close> (10 lines after it) that inserts two spans: first \<open>abc\<close>,
  which on its own has no mark of a suggestion, then \<open>x;\<close>, which ends a statement.\<close>

definition exEvent :: changeEvent where
  "exEvent = \<lparr>ev_document = exDoc 10, contentChanges = [''abc'', ''x;'']\<rparr>"


definition exVendored :: document where
  "exVendored = \<lparr>fsPath = ''/w/node_modules/lib/index.js'', lineCount = 7\<rparr>"

text \<open>A tracker whose last offered suggestion is the text of an empty line, the accepting
  flag already used up.\<close>

definition exEmptySuggestion :: tracker where
  "exEmptySuggestion = (exTracker (exStats 10 0 10 0) 0)\<lparr>lastCopilotSuggestion := Some ''''\<rparr>"

text \<open>A tracker right after a suggestion was offered on a line that reads \<open>abc\<close>: the
  accepting flag is up and the line is stored.\<close>

definition exOffered :: tracker where
  "exOffered = provideInlineCompletionItems True ''abc'' (exTracker (exStats 10 0 10 0) 0)"

text \<open>A session: \<open>/w/a.ts\<close> is opened with 10 lines, edited by \<^const>\<open>exEvent\<close>, and
  seen again with 1 line.\<close>

definition exEvents :: "event list" where
  "exEvents =
     [DidOpenTextDocument exHost ''2024-01-02'' (exDoc 10),
      DidChangeTextDocument exHost ''2024-01-03'' ''2024-01-03'' exEvent,
      DidOpenTextDocument exHost ''2024-01-04'' (exDoc 1)]"

section \<open>Auxiliary facts\<close>

subsection \<open>File records\<close>

lemma fileRecord_lookupFile: "fileRecord st p = lookupFile (fileStats st) p"
  by (simp add: fileRecord_def lookupFile_def)

lemma lookupFile_update [simp]: "lookupFile (AList.update p r fs) p = r"
  by (simp add: lookupFile_def update_conv')

lemma lookupFile_update_other [simp]:
  "q \<noteq> p \<Longrightarrow> lookupFile (AList.update p r fs) q = lookupFile fs q"
  by (simp add: lookupFile_def update_conv')

lemma ensureFileStats_update:
  "ensureFileStats p st =
     st\<lparr>fileStats := AList.update p (lookupFile (fileStats st) p) (fileStats st)\<rparr>"
  by (auto simp: ensureFileStats_def lookupFile_def update_triv split: option.splits)

lemma sum_list_update:
  "sum_list (map (\<lambda>(p, r). (f r :: int)) (AList.update k v al)) =
     sum_list (map (\<lambda>(p, r). f r) al)
     - (case map_of al k of None \<Rightarrow> 0 | Some old \<Rightarrow> f old) + f v"
  by (induction al) auto

lemma sumTotal_update [simp]:
  "sumTotal (AList.update p r fs) = sumTotal fs - totalLines (lookupFile fs p) + totalLines r"
  by (simp add: sumTotal_def sum_list_update lookupFile_def split: option.splits)

lemma sumCopilot_update [simp]:
  "sumCopilot (AList.update p r fs) =
     sumCopilot fs - copilotLines (lookupFile fs p) + copilotLines r"
  by (simp add: sumCopilot_def sum_list_update lookupFile_def split: option.splits)

lemma set_update_subset: "set (AList.update k v al) \<subseteq> insert (k, v) (set al)"
  by (induction al) auto

lemma filesBounds_update [simp]:
  "filesBounds fs \<Longrightarrow> recordBounds r \<Longrightarrow> filesBounds (AList.update p r fs)"
  using set_update_subset[of p r fs] by (auto simp: filesBounds_def)

lemma filesBounds_lookup: "filesBounds fs \<Longrightarrow> recordBounds (lookupFile fs p)"
  by (auto simp: filesBounds_def lookupFile_def recordBounds_def
      split: option.splits dest!: map_of_SomeD)

lemma filesBounds_sums:
  "filesBounds fs \<Longrightarrow> 0 \<le> sumCopilot fs \<and> sumCopilot fs \<le> sumTotal fs"
  unfolding sumCopilot_def sumTotal_def filesBounds_def recordBounds_def
  by (induction fs) auto

lemma aggregate_from_sums: "filesBounds (fileStats st) \<Longrightarrow> sumsInv st \<Longrightarrow> recordBounds st"
  using filesBounds_sums[of "fileStats st"] by (simp add: sumsInv_def recordBounds_def)

subsection \<open>What saving leaves alone\<close>

lemma stats_saveStats [simp]: "stats (saveStats s) = stats s"
  by (simp add: saveStats_def scheduleSave_def)

lemma pending_saveStats [simp]: "pendingCopilotLines (saveStats s) = pendingCopilotLines s"
  by (simp add: saveStats_def scheduleSave_def)

lemma stats_saveStatsToFile [simp]: "stats (saveStatsToFile h now s) = stats s"
  by (simp add: saveStatsToFile_def Let_def split: option.splits list.splits)

lemma stats_clearStats: "stats (clearStats h now now' s) = emptyStats now"
  by (simp add: clearStats_def Let_def)

lemma emptyStats_invariants:
  "sumsInv (emptyStats now)" "filesBounds (fileStats (emptyStats now))"
  "recordBounds (emptyStats now)"
  by (simp_all add: emptyStats_def sumsInv_def sumTotal_def sumCopilot_def filesBounds_def
      recordBounds_def)

subsection \<open>The classifier touches the suggestion variables only\<close>

lemma classifyChange_frame:
  "stats (snd (classifyChange t s)) = stats s \<and>
   pendingCopilotLines (snd (classifyChange t s)) = pendingCopilotLines s \<and>
   effects (snd (classifyChange t s)) = effects s \<and>
   lastSavedStats (snd (classifyChange t s)) = lastSavedStats s \<and>
   saveTimeout (snd (classifyChange t s)) = saveTimeout s"
  by (simp add: classifyChange_def split: option.splits)

lemma isCopilotChange_frame:
  "stats (snd (isCopilotChange ts s)) = stats s \<and>
   pendingCopilotLines (snd (isCopilotChange ts s)) = pendingCopilotLines s \<and>
   effects (snd (isCopilotChange ts s)) = effects s \<and>
   lastSavedStats (snd (isCopilotChange ts s)) = lastSavedStats s \<and>
   saveTimeout (snd (isCopilotChange ts s)) = saveTimeout s"
proof (induction ts arbitrary: s)
  case Nil
  show ?case by simp
next
  case (Cons t ts)
  show ?case
  proof (cases "classifyChange t s")
    case (Pair b s')
    with classifyChange_frame[of t s] Cons.IH[of s'] show ?thesis
      by (cases b) simp_all
  qed
qed

lemma onDidChangeTextDocument_cases:
  "onDidChangeTextDocument h now now' ev s = s \<or>
   (\<exists>s1. stats s1 = stats s \<and> pendingCopilotLines s1 = pendingCopilotLines s \<and>
      (onDidChangeTextDocument h now now' ev s = updateFileStats h now' (ev_document ev) s1 \<or>
       onDidChangeTextDocument h now now' ev s =
         updateFileStats h now' (ev_document ev)
           (applyAiLines now (fsPath (ev_document ev)) (newLines (contentChanges ev)) s1)))"
proof (cases "isCopilotChange (contentChanges ev) s")
  case (Pair b s1)
  with isCopilotChange_frame[of "contentChanges ev" s] show ?thesis
    by (cases b) (auto simp: onDidChangeTextDocument_def Let_def)
qed

subsection \<open>Each operation keeps the bounds and the sums\<close>

lemma filesBounds_updateFileStats:
  assumes "filesBounds (fileStats (stats s))"
  shows "filesBounds (fileStats (stats (updateFileStats h now doc s)))"
proof -
  have "recordBounds (lookupFile (fileStats (stats s)) (fsPath doc))"
    using assms by (rule filesBounds_lookup)
  with assms show ?thesis
    by (simp add: updateFileStats_def Let_def ensureFileStats_update fileRecord_lookupFile
        recordBounds_def)
qed

lemma sumsInv_updateFileStats:
  assumes "filesBounds (fileStats (stats s))" and "sumsInv (stats s)"
  shows "sumsInv (stats (updateFileStats h now doc s))"
proof -
  have "recordBounds (lookupFile (fileStats (stats s)) (fsPath doc))"
    using assms(1) by (rule filesBounds_lookup)
  with assms(2) show ?thesis
    by (simp add: updateFileStats_def Let_def ensureFileStats_update fileRecord_lookupFile
        recordBounds_def sumsInv_def)
qed

lemma filesBounds_applyAiLines:
  assumes "filesBounds (fileStats (stats s))"
  shows "filesBounds (fileStats (stats (applyAiLines now p n s)))"
proof -
  have "recordBounds (lookupFile (fileStats (stats s)) p)"
    using assms by (rule filesBounds_lookup)
  with assms show ?thesis
    by (simp add: applyAiLines_def Let_def ensureFileStats_update fileRecord_lookupFile
        recordBounds_def)
qed

lemma sumsInv_applyAiLines:
  assumes "sumsInv (stats s)"
  shows "sumsInv (stats (applyAiLines now p n s))"
  using assms
  by (simp add: applyAiLines_def Let_def ensureFileStats_update fileRecord_lookupFile sumsInv_def)

lemma filesBounds_onDidChangeTextDocument:
  assumes "filesBounds (fileStats (stats s))"
  shows "filesBounds (fileStats (stats (onDidChangeTextDocument h now now' ev s)))"
  using onDidChangeTextDocument_cases[of h now now' ev s] assms
  by (auto intro!: filesBounds_updateFileStats filesBounds_applyAiLines)

lemma sumsInv_onDidChangeTextDocument:
  assumes "filesBounds (fileStats (stats s))" and "sumsInv (stats s)"
  shows "sumsInv (stats (onDidChangeTextDocument h now now' ev s))"
  using onDidChangeTextDocument_cases[of h now now' ev s] assms
  by (auto intro!: sumsInv_updateFileStats filesBounds_applyAiLines sumsInv_applyAiLines)


subsection \<open>One-character searches\<close>

lemma str_includes_single: "str_includes t [c] = (c \<in> set t)"
  by (induction t) auto

lemma str_endsWith_single: "str_endsWith t [c] = (t \<noteq> [] \<and> last t = c)"
proof (cases t rule: rev_cases)
  case Nil
  then show ?thesis by (simp add: str_endsWith_def)
next
  case (snoc ys y)
  then show ?thesis by (auto simp: str_endsWith_def)
qed

lemma isCompleteStatement_last:
  "isCompleteStatement t =
     (str_trim t \<noteq> []
      \<and> last (str_trim t) \<in> set [CHR '';'', CHR ''}'', CHR '')'', CHR '']'', CHR 0x22, CHR 0x27])"
  by (auto simp: isCompleteStatement_def str_endsWith_single)

lemma newLines_sum: "newLines changes = sum_list (map countNonEmptyLines changes)"
proof -
  have "foldl (\<lambda>count newText. count + countNonEmptyLines newText) a changes
          = a + sum_list (map countNonEmptyLines changes)" for a
    by (induction changes arbitrary: a) simp_all
  then show ?thesis by (simp add: newLines_def)
qed

subsection \<open>The stored total after \<^const>\<open>updateFileStats\<close>\<close>

lemma updateFileStats_stored:
  assumes "shouldTrackFile h (fsPath doc)"
  shows "totalLines (lookupFile (fileStats (stats (updateFileStats h now doc s))) (fsPath doc))
           = int (lineCount doc)
       \<and> map_of (fileStats (stats (updateFileStats h now doc s))) (fsPath doc) \<noteq> None"
  using assms
  by (simp add: updateFileStats_def Let_def ensureFileStats_update fileRecord_lookupFile
      update_conv')

lemma updateFileStats_same_total:
  assumes "totalLines (lookupFile (fileStats (stats s)) (fsPath doc)) = int (lineCount doc)"
    and "map_of (fileStats (stats s)) (fsPath doc) \<noteq> None"
  shows "updateFileStats h now doc s = s"
  using assms
  by (auto simp add: updateFileStats_def Let_def ensureFileStats_def fileRecord_lookupFile)

subsection \<open>The two outcomes of a positive attribution\<close>

lemma applyAiLines_commit:
  assumes "0 < n" and "totalLines (fileRecord (stats s) p) \<noteq> 0"
    and "copilotLines (fileRecord (stats s) p) + int n \<le> totalLines (fileRecord (stats s) p)"
  shows "copilotLines (fileRecord (stats (applyAiLines now p n s)) p)
           = copilotLines (fileRecord (stats s) p) + int n
       \<and> copilotLines (stats (applyAiLines now p n s)) = copilotLines (stats s) + int n"
  using assms
  by (simp add: applyAiLines_def Let_def ensureFileStats_update fileRecord_lookupFile)

lemma applyAiLines_pending:
  assumes "0 < n" and "totalLines (fileRecord (stats s) p) = 0"
  shows "pendingCopilotLines (applyAiLines now p n s) = pendingCopilotLines s + int n"
  using assms
  by (simp add: applyAiLines_def Let_def ensureFileStats_update fileRecord_lookupFile)

subsection \<open>Sessions keep the bounds and the sums\<close>

lemma loadStats_snoc:
  "loadStats (effs @ [e]) = (case e of GlobalStateUpdate v \<Rightarrow> v | _ \<Rightarrow> loadStats effs)"
  by (cases e) (simp_all add: loadStats_def)

lemma loadStats_saveStats: "loadStats (effects (saveStats s)) = Some (stats s)"
  by (simp add: saveStats_def scheduleSave_def loadStats_def)

lemma loadStats_saveStatsToFile: "loadStats (effects (saveStatsToFile h now s)) = loadStats (effects s)"
  by (simp add: saveStatsToFile_def Let_def loadStats_def split: option.splits)

lemma consistent_step_stats:
  assumes "consistent (stats s)"
  shows "consistent (stats (updateFileStats h now doc s))"
    and "consistent (stats (applyAiLines now p n s))"
    and "consistent (stats (onDidChangeTextDocument h now now' ev s))"
proof -
  from assms have f: "filesBounds (fileStats (stats s))" and su: "sumsInv (stats s)"
    by (simp_all add: consistent_def statsBounds_def)
  show "consistent (stats (updateFileStats h now doc s))"
    using filesBounds_updateFileStats[OF f] sumsInv_updateFileStats[OF f su]
    by (simp add: consistent_def statsBounds_def aggregate_from_sums)
  show "consistent (stats (applyAiLines now p n s))"
    using filesBounds_applyAiLines[OF f] sumsInv_applyAiLines[OF su]
    by (simp add: consistent_def statsBounds_def aggregate_from_sums)
  show "consistent (stats (onDidChangeTextDocument h now now' ev s))"
    using filesBounds_onDidChangeTextDocument[OF f] sumsInv_onDidChangeTextDocument[OF f su]
    by (simp add: consistent_def statsBounds_def aggregate_from_sums)
qed

lemma updateFileStats_saves:
  "effects (updateFileStats h now doc s) = effects s
   \<or> (\<exists>s'. updateFileStats h now doc s = saveStats s')"
proof (cases "shouldTrackFile h (fsPath doc)
    \<and> totalLines (fileRecord (ensureFileStats (fsPath doc) (stats s)) (fsPath doc)) \<noteq> int (lineCount doc)")
  case True
  then have "\<exists>s'. updateFileStats h now doc s = saveStats s'"
    unfolding updateFileStats_def Let_def by (simp only: simp_thms if_True if_False) blast
  then show ?thesis ..
next
  case False
  then have "effects (updateFileStats h now doc s) = effects s"
    unfolding updateFileStats_def Let_def by auto
  then show ?thesis ..
qed

lemma applyAiLines_saves:
  "effects (applyAiLines now p n s) = effects s
   \<or> (\<exists>s'. applyAiLines now p n s = saveStats s')"
proof (cases "0 < n \<and> totalLines (fileRecord (ensureFileStats p (stats s)) p) \<noteq> 0
    \<and> copilotLines (fileRecord (ensureFileStats p (stats s)) p) + int n
        \<le> totalLines (fileRecord (ensureFileStats p (stats s)) p)")
  case True
  then have "\<exists>s'. applyAiLines now p n s = saveStats s'"
    unfolding applyAiLines_def Let_def by (simp only: simp_thms if_True if_False) blast
  then show ?thesis ..
next
  case False
  then have "effects (applyAiLines now p n s) = effects s"
    unfolding applyAiLines_def Let_def by auto
  then show ?thesis ..
qed

lemma updateFileStats_stored_cases:
  "loadStats (effects (updateFileStats h now doc s)) = loadStats (effects s)
   \<or> loadStats (effects (updateFileStats h now doc s)) = Some (stats (updateFileStats h now doc s))"
  using updateFileStats_saves[of h now doc s] by (auto simp: loadStats_saveStats)

lemma applyAiLines_stored_cases:
  "loadStats (effects (applyAiLines now p n s)) = loadStats (effects s)
   \<or> loadStats (effects (applyAiLines now p n s)) = Some (stats (applyAiLines now p n s))"
  using applyAiLines_saves[of now p n s] by (auto simp: loadStats_saveStats)

lemma sessionInv_updateFileStats:
  assumes "sessionInv s" shows "sessionInv (updateFileStats h now doc s)"
  using assms consistent_step_stats(1)[of s h now doc] updateFileStats_stored_cases[of h now doc s]
  by (auto simp: sessionInv_def)

lemma sessionInv_applyAiLines:
  assumes "sessionInv s" shows "sessionInv (applyAiLines now p n s)"
  using assms consistent_step_stats(2)[of s now p n] applyAiLines_stored_cases[of now p n s]
  by (auto simp: sessionInv_def)

lemma sessionInv_frame:
  assumes "sessionInv s" and "stats s1 = stats s" and "effects s1 = effects s"
  shows "sessionInv s1"
  unfolding sessionInv_def assms(2) assms(3) using assms(1) unfolding sessionInv_def .

lemma onDidChangeTextDocument_shape:
  "\<exists>s1. stats s1 = stats s \<and> pendingCopilotLines s1 = pendingCopilotLines s
      \<and> effects s1 = effects s
      \<and> (onDidChangeTextDocument h now now' ev s = s
         \<or> onDidChangeTextDocument h now now' ev s = updateFileStats h now' (ev_document ev) s1
         \<or> onDidChangeTextDocument h now now' ev s =
             updateFileStats h now' (ev_document ev)
               (applyAiLines now (fsPath (ev_document ev)) (newLines (contentChanges ev)) s1))"
proof (cases "isCopilotChange (contentChanges ev) s")
  case (Pair b s1)
  with isCopilotChange_frame[of "contentChanges ev" s]
  have "stats s1 = stats s \<and> pendingCopilotLines s1 = pendingCopilotLines s \<and> effects s1 = effects s"
    by simp
  moreover from Pair have "onDidChangeTextDocument h now now' ev s = s
         \<or> onDidChangeTextDocument h now now' ev s = updateFileStats h now' (ev_document ev) s1
         \<or> onDidChangeTextDocument h now now' ev s =
             updateFileStats h now' (ev_document ev)
               (applyAiLines now (fsPath (ev_document ev)) (newLines (contentChanges ev)) s1)"
    by (cases b) (simp_all add: onDidChangeTextDocument_def Let_def)
  ultimately show ?thesis by blast
qed

lemma sessionInv_onDidChangeTextDocument:
  assumes "sessionInv s" shows "sessionInv (onDidChangeTextDocument h now now' ev s)"
proof -
  from onDidChangeTextDocument_shape[of s h now now' ev]
  obtain s1 where s1: "stats s1 = stats s" "effects s1 = effects s"
    and shape: "onDidChangeTextDocument h now now' ev s = s
         \<or> onDidChangeTextDocument h now now' ev s = updateFileStats h now' (ev_document ev) s1
         \<or> onDidChangeTextDocument h now now' ev s =
             updateFileStats h now' (ev_document ev)
               (applyAiLines now (fsPath (ev_document ev)) (newLines (contentChanges ev)) s1)"
    by blast
  have inv1: "sessionInv s1"
    using assms s1 by (rule sessionInv_frame)
  from shape show ?thesis
  proof (elim disjE)
    assume "onDidChangeTextDocument h now now' ev s = s"
    with assms show ?thesis by simp
  next
    assume "onDidChangeTextDocument h now now' ev s = updateFileStats h now' (ev_document ev) s1"
    with sessionInv_updateFileStats[OF inv1] show ?thesis by simp
  next
    assume "onDidChangeTextDocument h now now' ev s =
             updateFileStats h now' (ev_document ev)
               (applyAiLines now (fsPath (ev_document ev)) (newLines (contentChanges ev)) s1)"
    with sessionInv_updateFileStats[OF sessionInv_applyAiLines[OF inv1]] show ?thesis by simp
  qed
qed

lemma sessionInv_onDidChangeConfiguration:
  assumes "sessionInv s" shows "sessionInv (onDidChangeConfiguration h affects docs s)"
proof -
  have "sessionInv (foldl (\<lambda>s' (now, doc). updateFileStats h now doc s') s docs)"
    using assms
    by (induction docs arbitrary: s) (auto simp: sessionInv_updateFileStats)
  with assms show ?thesis by (simp add: onDidChangeConfiguration_def)
qed

lemma sessionInv_clearStats: "sessionInv (clearStats h now now' s)"
  by (simp add: sessionInv_def stats_clearStats consistent_def statsBounds_def emptyStats_invariants
      clearStats_def Let_def loadStats_saveStatsToFile loadStats_snoc)

lemma sessionInv_saveStatsToFile: "sessionInv s \<Longrightarrow> sessionInv (saveStatsToFile h now s)"
  by (simp add: sessionInv_def loadStats_saveStatsToFile)

lemma sessionInv_provide: "sessionInv s \<Longrightarrow> sessionInv (provideInlineCompletionItems a l s)"
  by (simp add: sessionInv_def provideInlineCompletionItems_def)

lemma sessionInv_activate:
  assumes "case loadStats effs of None \<Rightarrow> True | Some stored \<Rightarrow> consistent stored"
  shows "sessionInv (activate h now now' effs)"
  using assms
  by (auto simp: activate_def Let_def sessionInv_def loadStats_saveStatsToFile consistent_def
      statsBounds_def emptyStats_invariants split: option.splits)

lemma sessionInv_step: "sessionInv s \<Longrightarrow> sessionInv (step e s)"
proof (cases e)
  case (Activate h now now')
  assume "sessionInv s"
  then have "case loadStats (effects s) of None \<Rightarrow> True | Some stored \<Rightarrow> consistent stored"
    by (simp add: sessionInv_def)
  then show ?thesis using Activate by (simp add: sessionInv_activate)
qed (simp_all add: sessionInv_onDidChangeTextDocument onDidOpenTextDocument_def sessionInv_updateFileStats
      sessionInv_onDidChangeConfiguration sessionInv_provide sessionInv_saveStatsToFile sessionInv_clearStats)

lemma sessionInv_session: "sessionInv (session h now now' es)"
proof (induction es rule: rev_induct)
  case Nil
  show ?case by (simp add: session_def sessionInv_activate loadStats_def)
next
  case (snoc e es)
  then show ?case by (simp add: session_def sessionInv_step)
qed


subsection \<open>The first sum on its own, the event's verdict, the pending lines\<close>

lemma totalsInv_updateFileStats:
  "totalsInv (stats s) \<Longrightarrow> totalsInv (stats (updateFileStats h now doc s))"
  by (simp add: updateFileStats_def Let_def ensureFileStats_update fileRecord_lookupFile totalsInv_def)

lemma totalsInv_applyAiLines:
  "totalsInv (stats s) \<Longrightarrow> totalsInv (stats (applyAiLines now p n s))"
  by (simp add: applyAiLines_def Let_def ensureFileStats_update fileRecord_lookupFile totalsInv_def)

lemma totalsInv_onDidChangeTextDocument:
  assumes "totalsInv (stats s)"
  shows "totalsInv (stats (onDidChangeTextDocument h now now' ev s))"
  using onDidChangeTextDocument_shape[of s h now now' ev] assms
  by (auto intro!: totalsInv_updateFileStats totalsInv_applyAiLines)

lemma classifyChange_rejects: "\<not> fst (classifyChange t s) \<Longrightarrow> snd (classifyChange t s) = s"
  by (auto simp: classifyChange_def split: option.splits if_splits)

lemma isCopilotChange_find:
  "isCopilotChange changes s =
     (case find (\<lambda>newText. fst (classifyChange newText s)) changes of
        None \<Rightarrow> (False, s)
      | Some accepted \<Rightarrow> (True, snd (classifyChange accepted s)))"
proof (induction changes)
  case Nil
  show ?case by simp
next
  case (Cons t ts)
  show ?case
  proof (cases "classifyChange t s")
    case (Pair b s')
    show ?thesis
    proof (cases b)
      case True
      with Pair show ?thesis by simp
    next
      case False
      with Pair classifyChange_rejects[of t s] have "s' = s" by simp
      with Pair False Cons.IH show ?thesis by simp
    qed
  qed
qed

lemma find_accepts:
  "(find P xs \<noteq> None) = (\<exists>x \<in> set xs. P x)"
  by (induction xs) auto

lemma isCopilotChange_some:
  "fst (isCopilotChange changes s) = (\<exists>newText \<in> set changes. fst (classifyChange newText s))"
  using find_accepts[of "\<lambda>newText. fst (classifyChange newText s)" changes]
  by (auto simp: isCopilotChange_find split: option.splits)






subsection \<open>Sessions, event by event\<close>


lemma sessionInv_bounds: "sessionInv s \<Longrightarrow> statsBounds (stats s) \<and> sumsInv (stats s)"
  by (simp add: sessionInv_def consistent_def)

lemma onDidChangeTextDocument_find:
  assumes "shouldTrackFile h (fsPath (ev_document ev))"
  shows "onDidChangeTextDocument h now now' ev s =
     (case find (\<lambda>newText. fst (classifyChange newText s)) (contentChanges ev) of
        None \<Rightarrow> updateFileStats h now' (ev_document ev) s
      | Some accepted \<Rightarrow>
          updateFileStats h now' (ev_document ev)
            (applyAiLines now (fsPath (ev_document ev)) (newLines (contentChanges ev))
               (snd (classifyChange accepted s))))"
  using assms
  by (simp add: onDidChangeTextDocument_def Let_def isCopilotChange_find split: option.splits)



section \<open>The invariants\<close>

text \<open>
  C1. In every state a session reaches, that is after every completed event (and so
  after every completed mutating operation: the change handler with its attribution
  block, \<^verbatim>\<open>updateFileStats\<close> from the open and the configuration handler, \<^verbatim>\<open>clearStats\<close>),
  from the first activation on and across restarts, and also between the attribution
  block and \<^verbatim>\<open>updateFileStats\<close>, the aggregate pair and every per-file record satisfy
  \<open>0 \<le> copilotLines \<le> totalLines\<close>. Operation by operation, from any state whatever:
  the per-file bounds are kept whenever they held before, and all bounds are kept
  whenever they and the two sums held before.
\<close>

theorem bounds_hold:
  "statsBounds (stats (session h0 t0 t0' es))
   \<and> statsBounds (stats (applyAiLines now p n (session h0 t0 t0' es)))
   \<and> (filesBounds (fileStats (stats s)) \<longrightarrow>
        filesBounds (fileStats (stats (onDidChangeTextDocument h now now' ev s)))
        \<and> filesBounds (fileStats (stats (applyAiLines now p n s)))
        \<and> filesBounds (fileStats (stats (updateFileStats h now doc s)))
        \<and> filesBounds (fileStats (stats (onDidOpenTextDocument h now doc s)))
        \<and> filesBounds (fileStats (stats (clearStats h now now' s))))
   \<and> (statsBounds (stats s) \<and> sumsInv (stats s) \<longrightarrow>
        statsBounds (stats (onDidChangeTextDocument h now now' ev s))
        \<and> statsBounds (stats (applyAiLines now p n s))
        \<and> statsBounds (stats (updateFileStats h now doc s))
        \<and> statsBounds (stats (onDidOpenTextDocument h now doc s))
        \<and> statsBounds (stats (clearStats h now now' s)))"
proof -
  have reach: "sessionInv (session h0 t0 t0' es)"
    by (rule sessionInv_session)
  then have one: "statsBounds (stats (session h0 t0 t0' es))"
    by (simp add: sessionInv_bounds)
  from sessionInv_applyAiLines[OF reach]
  have two: "statsBounds (stats (applyAiLines now p n (session h0 t0 t0' es)))"
    by (simp add: sessionInv_bounds)
  have three: "filesBounds (fileStats (stats (onDidChangeTextDocument h now now' ev s)))
        \<and> filesBounds (fileStats (stats (applyAiLines now p n s)))
        \<and> filesBounds (fileStats (stats (updateFileStats h now doc s)))
        \<and> filesBounds (fileStats (stats (onDidOpenTextDocument h now doc s)))
        \<and> filesBounds (fileStats (stats (clearStats h now now' s)))"
    if "filesBounds (fileStats (stats s))"
    using that
    by (simp add: filesBounds_onDidChangeTextDocument filesBounds_applyAiLines
        filesBounds_updateFileStats onDidOpenTextDocument_def stats_clearStats
        emptyStats_invariants)
  have four: "statsBounds (stats (onDidChangeTextDocument h now now' ev s))
        \<and> statsBounds (stats (applyAiLines now p n s))
        \<and> statsBounds (stats (updateFileStats h now doc s))
        \<and> statsBounds (stats (onDidOpenTextDocument h now doc s))
        \<and> statsBounds (stats (clearStats h now now' s))"
    if "statsBounds (stats s) \<and> sumsInv (stats s)"
  proof -
    from that have c: "consistent (stats s)" by (simp add: consistent_def)
    from consistent_step_stats[OF c] show ?thesis
      by (simp add: consistent_def onDidOpenTextDocument_def stats_clearStats statsBounds_def
          emptyStats_invariants)
  qed
  from one two three four show ?thesis by blast
qed


text \<open>The session \<^const>\<open>exEvents\<close> ends with the clamp: 2 lines are attributed in a file
  of 10 lines, which is then seen with 1 line. The single operation is the clamp of the
  specification, 10 lines with 8 attributed seen again with 5.\<close>

theorem bounds_hold_witness:
  "map_of (fileStats (stats (session exHost ''2024-01-01'' ''2024-01-01'' exEvents))) ''/w/a.ts''
     = Some \<lparr>totalLines = 1, copilotLines = 1\<rparr>
   \<and> statsBounds (stats (session exHost ''2024-01-01'' ''2024-01-01'' exEvents))
   \<and> statsBounds (stats (exTracker (exStats 10 8 10 8) 0))
   \<and> sumsInv (stats (exTracker (exStats 10 8 10 8) 0))
   \<and> filesBounds (fileStats (stats (updateFileStats exHost ''2024-01-02'' (exDoc 5)
                                       (exTracker (exStats 10 8 10 8) 0))))
   \<and> statsBounds (stats (updateFileStats exHost ''2024-01-02'' (exDoc 5)
                           (exTracker (exStats 10 8 10 8) 0)))"
proof -
  have run: "map_of (fileStats (stats (session exHost ''2024-01-01'' ''2024-01-01'' exEvents)))
               ''/w/a.ts'' = Some \<lparr>totalLines = 1, copilotLines = 1\<rparr>"
    by code_simp
  have h1: "statsBounds (stats (exTracker (exStats 10 8 10 8) 0))"
    by (simp add: statsBounds_def recordBounds_def filesBounds_def exTracker_def exStats_def)
  then have h2: "filesBounds (fileStats (stats (exTracker (exStats 10 8 10 8) 0)))"
    by (simp add: statsBounds_def)
  have h3: "sumsInv (stats (exTracker (exStats 10 8 10 8) 0))"
    by (simp add: sumsInv_def sumTotal_def sumCopilot_def exTracker_def exStats_def)
  from bounds_hold[where ?h0.0 = exHost and ?t0.0 = "''2024-01-01''" and t0' = "''2024-01-01''"
      and es = exEvents and s = "exTracker (exStats 10 8 10 8) 0" and h = exHost
      and now = "''2024-01-02''" and doc = "exDoc 5"] run h1 h2 h3
  show ?thesis by simp
qed

text \<open>
  C6. In every state a session reaches, after every completed event and also between
  the attribution block and \<^verbatim>\<open>updateFileStats\<close>, the aggregate \<open>totalLines\<close> is the sum
  of the per-file \<open>totalLines\<close> and the aggregate \<open>copilotLines\<close> is the sum of the
  per-file \<open>copilotLines\<close>. Operation by operation, from any state whatever: the sum of
  the totals is kept whenever it held before, and both sums are kept whenever they and
  the per-file bounds held before.
\<close>

theorem sums_hold:
  "sumsInv (stats (session h0 t0 t0' es))
   \<and> sumsInv (stats (applyAiLines now p n (session h0 t0 t0' es)))
   \<and> (totalsInv (stats s) \<longrightarrow>
        totalsInv (stats (onDidChangeTextDocument h now now' ev s))
        \<and> totalsInv (stats (applyAiLines now p n s))
        \<and> totalsInv (stats (updateFileStats h now doc s))
        \<and> totalsInv (stats (onDidOpenTextDocument h now doc s))
        \<and> totalsInv (stats (clearStats h now now' s)))
   \<and> (sumsInv (stats s) \<and> filesBounds (fileStats (stats s)) \<longrightarrow>
        sumsInv (stats (onDidChangeTextDocument h now now' ev s))
        \<and> sumsInv (stats (applyAiLines now p n s))
        \<and> sumsInv (stats (updateFileStats h now doc s))
        \<and> sumsInv (stats (onDidOpenTextDocument h now doc s))
        \<and> sumsInv (stats (clearStats h now now' s)))"
proof -
  have reach: "sessionInv (session h0 t0 t0' es)"
    by (rule sessionInv_session)
  then have one: "sumsInv (stats (session h0 t0 t0' es))"
    by (simp add: sessionInv_bounds)
  from sessionInv_applyAiLines[OF reach]
  have two: "sumsInv (stats (applyAiLines now p n (session h0 t0 t0' es)))"
    by (simp add: sessionInv_bounds)
  have three: "totalsInv (stats (onDidChangeTextDocument h now now' ev s))
        \<and> totalsInv (stats (applyAiLines now p n s))
        \<and> totalsInv (stats (updateFileStats h now doc s))
        \<and> totalsInv (stats (onDidOpenTextDocument h now doc s))
        \<and> totalsInv (stats (clearStats h now now' s))"
    if "totalsInv (stats s)"
    using that
    by (simp add: totalsInv_onDidChangeTextDocument totalsInv_applyAiLines
        totalsInv_updateFileStats onDidOpenTextDocument_def stats_clearStats)
      (simp add: totalsInv_def emptyStats_def sumTotal_def)
  have four: "sumsInv (stats (onDidChangeTextDocument h now now' ev s))
        \<and> sumsInv (stats (applyAiLines now p n s))
        \<and> sumsInv (stats (updateFileStats h now doc s))
        \<and> sumsInv (stats (onDidOpenTextDocument h now doc s))
        \<and> sumsInv (stats (clearStats h now now' s))"
    if "sumsInv (stats s) \<and> filesBounds (fileStats (stats s))"
    using that
    by (simp add: sumsInv_onDidChangeTextDocument sumsInv_applyAiLines sumsInv_updateFileStats
        onDidOpenTextDocument_def stats_clearStats emptyStats_invariants)
  from one two three four show ?thesis by blast
qed


text \<open>The same session; the file's record is then the only one, and the aggregate pair
  equals it. The single operation takes 2 pending lines into a new file of 5 lines.\<close>

theorem sums_hold_witness:
  "lookupFile (fileStats (stats (session exHost ''2024-01-01'' ''2024-01-01'' exEvents))) ''/w/a.ts''
     = \<lparr>totalLines = 1, copilotLines = 1\<rparr>
   \<and> LineStats.truncate (stats (session exHost ''2024-01-01'' ''2024-01-01'' exEvents))
     = \<lparr>totalLines = 1, copilotLines = 1\<rparr>
   \<and> sumsInv (stats (session exHost ''2024-01-01'' ''2024-01-01'' exEvents))
   \<and> sumsInv (stats (exTracker (exStats 0 0 0 0) 2))
   \<and> filesBounds (fileStats (stats (exTracker (exStats 0 0 0 0) 2)))
   \<and> totalsInv (stats (updateFileStats exHost ''2024-01-02'' (exDoc 5)
                          (exTracker (exStats 0 0 0 0) 2)))
   \<and> sumsInv (stats (updateFileStats exHost ''2024-01-02'' (exDoc 5)
                        (exTracker (exStats 0 0 0 0) 2)))"
proof -
  have run: "lookupFile (fileStats (stats (session exHost ''2024-01-01'' ''2024-01-01'' exEvents)))
               ''/w/a.ts'' = \<lparr>totalLines = 1, copilotLines = 1\<rparr>"
      "LineStats.truncate (stats (session exHost ''2024-01-01'' ''2024-01-01'' exEvents))
         = \<lparr>totalLines = 1, copilotLines = 1\<rparr>"
    by code_simp+
  have h1: "sumsInv (stats (exTracker (exStats 0 0 0 0) 2))"
    by (simp add: sumsInv_def sumTotal_def sumCopilot_def exTracker_def exStats_def)
  then have h2: "totalsInv (stats (exTracker (exStats 0 0 0 0) 2))"
    by (simp add: sumsInv_def totalsInv_def)
  have h3: "filesBounds (fileStats (stats (exTracker (exStats 0 0 0 0) 2)))"
    by (simp add: recordBounds_def filesBounds_def exTracker_def exStats_def)
  from sums_hold[where ?h0.0 = exHost and ?t0.0 = "''2024-01-01''" and t0' = "''2024-01-01''"
      and es = exEvents and s = "exTracker (exStats 0 0 0 0) 2" and h = exHost
      and now = "''2024-01-02''" and doc = "exDoc 5"] run h1 h2 h3
  show ?thesis by simp
qed

section \<open>The accounting operations\<close>

text \<open>
  C7. Two calls of \<^verbatim>\<open>updateFileStats\<close> in a row for the same document (same path, same
  line count) leave, after the second call, exactly the state the first call left: no
  counter, no file record, no \<^verbatim>\<open>lastUpdated\<close>, and no effect is added (no quick-reload
  write, no timer cleared or set), whatever the time of the second call.
\<close>

theorem updateFileStats_idempotent:
  "updateFileStats h now' doc (updateFileStats h now doc s) = updateFileStats h now doc s"
proof (cases "shouldTrackFile h (fsPath doc)")
  case False
  then show ?thesis by (simp add: updateFileStats_def Let_def)
next
  case True
  from updateFileStats_stored[OF True, of now s] show ?thesis
    by (intro updateFileStats_same_total) simp_all
qed

text \<open>A new file seen with 5 lines: the first call changes the state, the second does
  not.\<close>

theorem updateFileStats_idempotent_witness:
  "updateFileStats exHost ''2024-01-02'' (exDoc 5) (exTracker (emptyStats ''2024-01-01'') 0)
     \<noteq> exTracker (emptyStats ''2024-01-01'') 0
   \<and> updateFileStats exHost ''2024-01-03'' (exDoc 5)
       (updateFileStats exHost ''2024-01-02'' (exDoc 5) (exTracker (emptyStats ''2024-01-01'') 0))
     = updateFileStats exHost ''2024-01-02'' (exDoc 5) (exTracker (emptyStats ''2024-01-01'') 0)"
proof -
  have "updateFileStats exHost ''2024-01-02'' (exDoc 5) (exTracker (emptyStats ''2024-01-01'') 0)
          \<noteq> exTracker (emptyStats ''2024-01-01'') 0"
    by code_simp
  with updateFileStats_idempotent[of exHost "''2024-01-03''" "exDoc 5" "''2024-01-02''"
      "exTracker (emptyStats ''2024-01-01'') 0"]
  show ?thesis by simp
qed

text \<open>
  C4. For a file that has a record with a positive stored total, an AI-attributed line
  count \<open>n\<close> whose candidate \<open>copilotLines + n\<close> exceeds the stored total leaves the whole
  state as it was: the per-file and the aggregate counters, the pending lines,
  \<^verbatim>\<open>lastUpdated\<close>, and the effects (nothing is persisted or scheduled).
\<close>

theorem applyAiLines_overflow_rejected:
  assumes "map_of (fileStats (stats s)) filePath = Some r"
    and "0 < totalLines r" and "totalLines r < copilotLines r + int n"
  shows "applyAiLines now filePath n s = s"
  using assms by (simp add: applyAiLines_def Let_def ensureFileStats_def fileRecord_def)

text \<open>The example of the specification: the record \<open>{totalLines: 5, copilotLines: 5}\<close> of
  the file \<open>f\<close> and 2 lines to attribute.\<close>

theorem applyAiLines_overflow_rejected_witness:
  "applyAiLines ''2024-01-02'' ''f'' 2
     (exTracker \<lparr>totalLines = 5, copilotLines = 5, lastUpdated = ''2024-01-01'',
                 fileStats = [(''f'', \<lparr>totalLines = 5, copilotLines = 5\<rparr>)]\<rparr> 0)
   = exTracker \<lparr>totalLines = 5, copilotLines = 5, lastUpdated = ''2024-01-01'',
                fileStats = [(''f'', \<lparr>totalLines = 5, copilotLines = 5\<rparr>)]\<rparr> 0"
  by (rule applyAiLines_overflow_rejected[where r = "\<lparr>totalLines = 5, copilotLines = 5\<rparr>"])
    (simp_all add: exTracker_def)

text \<open>
  C3 (as amended). When \<^verbatim>\<open>updateFileStats\<close> runs on a tracked file whose stored total
  goes from 0 to a positive new total while lines are pending, it adds
  \<open>take = min pending newTotal\<close> to the per-file and to the aggregate \<open>copilotLines\<close>, and
  it resets the pending lines to 0: nothing remains pending, also when the pending lines
  exceed the new total. (The per-file count is 0 before, by its bound.)
\<close>

theorem updateFileStats_takes_pending:
  assumes "shouldTrackFile h (fsPath doc)"
    and "recordBounds (fileRecord (stats s) (fsPath doc))"
    and "totalLines (fileRecord (stats s) (fsPath doc)) = 0"
    and "0 < lineCount doc"
    and "0 < pendingCopilotLines s"
  shows "map_of (fileStats (stats (updateFileStats h now doc s))) (fsPath doc) =
           Some \<lparr>totalLines = int (lineCount doc),
                 copilotLines = copilotLines (fileRecord (stats s) (fsPath doc))
                                + min (pendingCopilotLines s) (int (lineCount doc))\<rparr>
       \<and> copilotLines (stats (updateFileStats h now doc s)) =
           copilotLines (stats s) + min (pendingCopilotLines s) (int (lineCount doc))
       \<and> pendingCopilotLines (updateFileStats h now doc s) = 0"
  using assms
  by (simp add: updateFileStats_def Let_def ensureFileStats_update fileRecord_lookupFile
      update_conv' recordBounds_def)

text \<open>The pending cap of the specification: 10 pending lines and a new file of 4 lines.\<close>

theorem updateFileStats_takes_pending_witness:
  "shouldTrackFile exHost (fsPath (exDoc 4))
   \<and> map_of (fileStats (stats (updateFileStats exHost ''2024-01-02'' (exDoc 4)
                                 (exTracker (emptyStats ''2024-01-01'') 10))))
       (fsPath (exDoc 4))
     = Some \<lparr>totalLines = 4, copilotLines = 4\<rparr>
   \<and> copilotLines (stats (updateFileStats exHost ''2024-01-02'' (exDoc 4)
                            (exTracker (emptyStats ''2024-01-01'') 10))) = 4
   \<and> pendingCopilotLines (updateFileStats exHost ''2024-01-02'' (exDoc 4)
                            (exTracker (emptyStats ''2024-01-01'') 10)) = 0"
proof -
  have h1: "shouldTrackFile exHost (fsPath (exDoc 4))"
    by code_simp
  have h2: "recordBounds (fileRecord (stats (exTracker (emptyStats ''2024-01-01'') 10))
                            (fsPath (exDoc 4)))"
    by code_simp
  have h3: "totalLines (fileRecord (stats (exTracker (emptyStats ''2024-01-01'') 10))
                          (fsPath (exDoc 4))) = 0"
    by code_simp
  have h4: "0 < lineCount (exDoc 4)"
    by (simp add: exDoc_def)
  have h5: "0 < pendingCopilotLines (exTracker (emptyStats ''2024-01-01'') 10)"
    by (simp add: exTracker_def)
  from updateFileStats_takes_pending[OF h1 h2 h3 h4 h5, of "''2024-01-02''"] h1
  show ?thesis
    by (simp add: exTracker_def exDoc_def emptyStats_def fileRecord_def)
qed

text \<open>C3 as the specification states it fails in its last part: with 10 lines pending
  and a new total of 4 the specification leaves \<open>10 - min 10 4 = 6\<close> lines pending;
  the code leaves none.\<close>

theorem pending_residual_counterexample:
  "shouldTrackFile exHost (fsPath (exDoc 4))
   \<and> totalLines (fileRecord (stats (exTracker (emptyStats ''2024-01-01'') 10))
                   (fsPath (exDoc 4))) = 0
   \<and> pendingCopilotLines (updateFileStats exHost ''2024-01-02'' (exDoc 4)
                            (exTracker (emptyStats ''2024-01-01'') 10))
     \<noteq> pendingCopilotLines (exTracker (emptyStats ''2024-01-01'') 10)
        - min (pendingCopilotLines (exTracker (emptyStats ''2024-01-01'') 10))
              (int (lineCount (exDoc 4)))"
  by code_simp






section \<open>The change handler\<close>

text \<open>
  C5 (as amended). Of the inserted spans of an edit event on a tracked file the
  classifier examines, in order, those up to and including the first one it classifies
  AI-originated; the spans after that one are not examined and change no variable. On a
  span it examines it decides in this order: (1) if \<^verbatim>\<open>isAcceptingSuggestion\<close> is true, the
  span is AI-originated and the flag is cleared; (2) else if \<^verbatim>\<open>lastCopilotSuggestion\<close>
  holds a non-empty text and the span contains it, the span is AI-originated and the text
  is cleared; (3) else the span is AI-originated exactly when it contains a line feed or
  its trimmed form ends with one of \<^verbatim>\<open>; } ) ] " '\<close>, and no variable changes. A
  suggestion text that is the empty string counts as not set. The verdict of the event,
  and with it the handler's attribution, is that of the first accepted span.
\<close>

theorem classifier_priority:
  "classifyChange newText s =
     (if isAcceptingSuggestion s then (True, s\<lparr>isAcceptingSuggestion := False\<rparr>)
      else if (case lastCopilotSuggestion s of
                 None \<Rightarrow> False
               | Some suggestion \<Rightarrow> suggestion \<noteq> [] \<and> str_includes newText suggestion)
      then (True, s\<lparr>lastCopilotSuggestion := None\<rparr>)
      else (CHR 0x0A \<in> set newText
            \<or> (str_trim newText \<noteq> []
               \<and> last (str_trim newText)
                   \<in> set [CHR '';'', CHR ''}'', CHR '')'', CHR '']'', CHR 0x22, CHR 0x27]), s))
   \<and> isCopilotChange changes s =
       (case find (\<lambda>span. fst (classifyChange span s)) changes of
          None \<Rightarrow> (False, s)
        | Some accepted \<Rightarrow> (True, snd (classifyChange accepted s)))
   \<and> (shouldTrackFile h (fsPath (ev_document ev)) \<longrightarrow>
        onDidChangeTextDocument h now now' ev s =
          (case find (\<lambda>span. fst (classifyChange span s)) (contentChanges ev) of
             None \<Rightarrow> updateFileStats h now' (ev_document ev) s
           | Some accepted \<Rightarrow>
               updateFileStats h now' (ev_document ev)
                 (applyAiLines now (fsPath (ev_document ev)) (newLines (contentChanges ev))
                    (snd (classifyChange accepted s)))))"
proof -
  have one: "classifyChange newText s =
     (if isAcceptingSuggestion s then (True, s\<lparr>isAcceptingSuggestion := False\<rparr>)
      else if (case lastCopilotSuggestion s of
                 None \<Rightarrow> False
               | Some suggestion \<Rightarrow> suggestion \<noteq> [] \<and> str_includes newText suggestion)
      then (True, s\<lparr>lastCopilotSuggestion := None\<rparr>)
      else (CHR 0x0A \<in> set newText
            \<or> (str_trim newText \<noteq> []
               \<and> last (str_trim newText)
                   \<in> set [CHR '';'', CHR ''}'', CHR '')'', CHR '']'', CHR 0x22, CHR 0x27]), s))"
    by (simp add: classifyChange_def str_includes_single isCompleteStatement_last
        split: option.splits)
  from one isCopilotChange_find[of changes s] onDidChangeTextDocument_find[of h ev now now' s]
  show ?thesis by blast
qed


text \<open>A suggestion was offered on the line \<open>abc\<close>, and the event inserts \<open>x\<close> and \<open>abc\<close>:
  the flag accepts \<open>x\<close>, and \<open>abc\<close> is not examined, so the stored text stays.\<close>

theorem classifier_priority_witness:
  "shouldTrackFile exHost (fsPath (exDoc 10))
   \<and> classifyChange ''x'' exOffered = (True, exOffered\<lparr>isAcceptingSuggestion := False\<rparr>)
   \<and> isCopilotChange [''x'', ''abc''] exOffered = (True, exOffered\<lparr>isAcceptingSuggestion := False\<rparr>)
   \<and> lastCopilotSuggestion
       (onDidChangeTextDocument exHost ''2024-01-02'' ''2024-01-02''
          \<lparr>ev_document = exDoc 10, contentChanges = [''x'', ''abc'']\<rparr> exOffered) = Some ''abc''"
proof -
  have h: "shouldTrackFile exHost (fsPath (exDoc 10))"
    by code_simp
  have flag: "isAcceptingSuggestion exOffered"
    by (simp add: exOffered_def provideInlineCompletionItems_def)
  have found: "find (\<lambda>span. fst (classifyChange span exOffered)) [''x'', ''abc''] = Some ''x''"
    by code_simp
  have run: "lastCopilotSuggestion
      (updateFileStats exHost ''2024-01-02'' (exDoc 10)
         (applyAiLines ''2024-01-02'' (fsPath (exDoc 10)) (newLines [''x'', ''abc''])
            (snd (True, exOffered\<lparr>isAcceptingSuggestion := False\<rparr>)))) = Some ''abc''"
    by code_simp
  from classifier_priority[of "''x''" exOffered "[''x'', ''abc'']" exHost
      "\<lparr>ev_document = exDoc 10, contentChanges = [''x'', ''abc'']\<rparr>" "''2024-01-02''" "''2024-01-02''"]
    h flag found run
  show ?thesis by simp
qed


text \<open>C5 as the specification states it fails twice. Where the stored suggestion text is
  the empty string (the suggestion was offered on an empty line) every span contains it,
  so the specification's classifier calls the span \<open>a\<close> AI-originated; the code, whose
  test \<^verbatim>\<open>lastCopilotSuggestion && ...\<close> is false for the empty string, calls it manual. And
  where every span is classified, the spans \<open>x\<close> and \<open>abc\<close> use up both the flag and the
  stored text \<open>abc\<close>; the code stops at \<open>x\<close> and keeps the text.\<close>

theorem classifier_counterexample:
  "fst (classifyChange_spec ''a'' exEmptySuggestion)
   \<and> \<not> fst (classifyChange ''a'' exEmptySuggestion)
   \<and> lastCopilotSuggestion (snd (classifyEvery_spec [''x'', ''abc''] exOffered)) = None
   \<and> lastCopilotSuggestion (snd (isCopilotChange [''x'', ''abc''] exOffered)) = Some ''abc''"
  by code_simp

text \<open>
  C9. Classification is per event, not per span: when some span of the tracked file's
  edit event, whichever its place among the spans, is one the classifier accepts, the
  event's verdict is AI and the handler attributes the sum of \<^verbatim>\<open>countNonEmptyLines\<close> over
  every span of the event, also over the spans that on their own would be manual. With
  \<open>N\<close> that sum: if \<open>N > 0\<close> and the file's stored total is 0, \<open>N\<close> is added to the
  pending lines; if \<open>N > 0\<close>, the stored total is not 0 and the file's count plus \<open>N\<close>
  does not exceed it, \<open>N\<close> is added to the file's and to the aggregate \<open>copilotLines\<close>;
  \<^verbatim>\<open>updateFileStats\<close> then runs on the result.
\<close>

theorem attribution_counts_every_span:
  assumes "shouldTrackFile h (fsPath (ev_document ev))"
    and "newText \<in> set (contentChanges ev)"
    and "fst (classifyChange newText s)"
  shows "(let filePath = fsPath (ev_document ev);
              N = sum_list (map countNonEmptyLines (contentChanges ev));
              r = fileRecord (stats s) filePath;
              a = applyAiLines now filePath N (snd (isCopilotChange (contentChanges ev) s))
          in fst (isCopilotChange (contentChanges ev) s)
             \<and> onDidChangeTextDocument h now now' ev s = updateFileStats h now' (ev_document ev) a
             \<and> (0 < N \<and> totalLines r = 0 \<longrightarrow>
                  pendingCopilotLines a = pendingCopilotLines s + int N)
             \<and> (0 < N \<and> totalLines r \<noteq> 0 \<and> copilotLines r + int N \<le> totalLines r \<longrightarrow>
                  copilotLines (fileRecord (stats a) filePath) = copilotLines r + int N
                  \<and> copilotLines (stats a) = copilotLines (stats s) + int N))"
proof -
  obtain s1 where s1: "isCopilotChange (contentChanges ev) s = (True, s1)"
    using assms(2,3) isCopilotChange_some[of "contentChanges ev" s]
    by (cases "isCopilotChange (contentChanges ev) s") auto
  from isCopilotChange_frame[of "contentChanges ev" s] s1
  have same: "stats s1 = stats s" "pendingCopilotLines s1 = pendingCopilotLines s"
    by simp_all
  have handler: "onDidChangeTextDocument h now now' ev s =
      updateFileStats h now' (ev_document ev)
        (applyAiLines now (fsPath (ev_document ev))
           (sum_list (map countNonEmptyLines (contentChanges ev))) s1)"
    using assms(1) s1 by (simp add: onDidChangeTextDocument_def Let_def newLines_sum)
  from handler same s1
    applyAiLines_pending[of "sum_list (map countNonEmptyLines (contentChanges ev))" s1
      "fsPath (ev_document ev)" now]
    applyAiLines_commit[of "sum_list (map countNonEmptyLines (contentChanges ev))" s1
      "fsPath (ev_document ev)" now]
  show ?thesis by (simp add: Let_def)
qed


text \<open>The event with the spans \<open>abc\<close> and \<open>x;\<close> on a file of 10 lines, none attributed
  so far: \<open>abc\<close>, the first span, is manual on its own, \<open>x;\<close> after it is accepted, and
  2 lines are attributed.\<close>

theorem attribution_counts_every_span_witness:
  "shouldTrackFile exHost (fsPath (ev_document exEvent))
   \<and> ''x;'' \<in> set (contentChanges exEvent)
   \<and> fst (classifyChange ''x;'' (exTracker (exStats 10 0 10 0) 0))
   \<and> \<not> fst (classifyChange ''abc'' (exTracker (exStats 10 0 10 0) 0))
   \<and> copilotLines (fileRecord (stats (applyAiLines ''2024-01-02'' (fsPath (ev_document exEvent)) 2
                                         (exTracker (exStats 10 0 10 0) 0)))
                      (fsPath (ev_document exEvent))) = 2
   \<and> map_of (fileStats (stats (onDidChangeTextDocument exHost ''2024-01-02'' ''2024-01-02''
                                 exEvent (exTracker (exStats 10 0 10 0) 0))))
       (fsPath (ev_document exEvent))
     = Some \<lparr>totalLines = 10, copilotLines = 2\<rparr>"
proof -
  have h1: "shouldTrackFile exHost (fsPath (ev_document exEvent))"
    by code_simp
  have h2: "''x;'' \<in> set (contentChanges exEvent)"
    by (simp add: exEvent_def)
  have h3: "fst (classifyChange ''x;'' (exTracker (exStats 10 0 10 0) 0))"
    by code_simp
  have h4: "\<not> fst (classifyChange ''abc'' (exTracker (exStats 10 0 10 0) 0))"
    by code_simp
  have after: "snd (isCopilotChange (contentChanges exEvent) (exTracker (exStats 10 0 10 0) 0))
                 = exTracker (exStats 10 0 10 0) 0"
    by code_simp
  have count: "sum_list (map countNonEmptyLines (contentChanges exEvent)) = 2"
    by code_simp
  have before: "fileRecord (stats (exTracker (exStats 10 0 10 0) 0)) (fsPath (ev_document exEvent))
                  = \<lparr>totalLines = 10, copilotLines = 0\<rparr>"
    by code_simp
  have run: "map_of (fileStats (stats (updateFileStats exHost ''2024-01-02'' (ev_document exEvent)
               (applyAiLines ''2024-01-02'' (fsPath (ev_document exEvent)) 2
                  (exTracker (exStats 10 0 10 0) 0)))))
             (fsPath (ev_document exEvent))
           = Some \<lparr>totalLines = 10, copilotLines = 2\<rparr>"
    by code_simp
  from attribution_counts_every_span[OF h1 h2 h3, of "''2024-01-02''" "''2024-01-02''"]
  have "onDidChangeTextDocument exHost ''2024-01-02'' ''2024-01-02'' exEvent
          (exTracker (exStats 10 0 10 0) 0)
        = updateFileStats exHost ''2024-01-02'' (ev_document exEvent)
            (applyAiLines ''2024-01-02'' (fsPath (ev_document exEvent)) 2
               (exTracker (exStats 10 0 10 0) 0))
      \<and> copilotLines (fileRecord (stats (applyAiLines ''2024-01-02'' (fsPath (ev_document exEvent)) 2
                                           (exTracker (exStats 10 0 10 0) 0)))
                        (fsPath (ev_document exEvent))) = 2"
    by (simp add: Let_def count before after)
  with h1 h2 h3 h4 run show ?thesis by simp
qed

text \<open>
  C8. For a path that \<^verbatim>\<open>shouldTrackFile\<close> rejects, and so for every path with a
  \<open>node_modules\<close> directory in it and every path that ends with the name of the snapshot
  file, whatever its extension and whatever the setting of the tracked extensions,
  neither the change handler nor the open handler changes the state: no file record is
  created, no counter or classifier variable is written, no effect is added.
\<close>

theorem excluded_path_untouched:
  assumes "\<not> shouldTrackFile h (fsPath doc)
           \<or> str_includes (fsPath doc) ''/node_modules/''
           \<or> str_includes (fsPath doc) (CHR 0x5C # ''node_modules'' @ [CHR 0x5C])
           \<or> str_endsWith (fsPath doc) ''.copilot-stats.json''"
  shows "\<not> shouldTrackFile h (fsPath doc)
       \<and> onDidChangeTextDocument h now now' \<lparr>ev_document = doc, contentChanges = changes\<rparr> s = s
       \<and> onDidOpenTextDocument h now doc s = s"
proof -
  from assms have "\<not> shouldTrackFile h (fsPath doc)"
    by (auto simp: shouldTrackFile_def)
  then show ?thesis
    by (simp add: onDidChangeTextDocument_def onDidOpenTextDocument_def updateFileStats_def
        Let_def)
qed

text \<open>A JavaScript file below \<open>node_modules\<close>, edited with a span that looks like a
  suggestion while the accepting flag is up.\<close>

theorem excluded_path_untouched_witness:
  "str_includes (fsPath exVendored) ''/node_modules/''
   \<and> \<not> shouldTrackFile exHost (fsPath exVendored)
   \<and> onDidChangeTextDocument exHost ''2024-01-02'' ''2024-01-02''
       \<lparr>ev_document = exVendored, contentChanges = [''x;'']\<rparr>
       ((exTracker (emptyStats ''2024-01-01'') 0)\<lparr>isAcceptingSuggestion := True\<rparr>)
     = (exTracker (emptyStats ''2024-01-01'') 0)\<lparr>isAcceptingSuggestion := True\<rparr>
   \<and> onDidOpenTextDocument exHost ''2024-01-02'' exVendored
       ((exTracker (emptyStats ''2024-01-01'') 0)\<lparr>isAcceptingSuggestion := True\<rparr>)
     = (exTracker (emptyStats ''2024-01-01'') 0)\<lparr>isAcceptingSuggestion := True\<rparr>"
proof -
  have h: "str_includes (fsPath exVendored) ''/node_modules/''"
    by (simp add: exVendored_def)
  then have "\<not> shouldTrackFile exHost (fsPath exVendored)
           \<or> str_includes (fsPath exVendored) ''/node_modules/''
           \<or> str_includes (fsPath exVendored) (CHR 0x5C # ''node_modules'' @ [CHR 0x5C])
           \<or> str_endsWith (fsPath exVendored) ''.copilot-stats.json''"
    by simp
  from excluded_path_untouched[OF this, of "''2024-01-02''" "''2024-01-02''" "[''x;'']"
      "(exTracker (emptyStats ''2024-01-01'') 0)\<lparr>isAcceptingSuggestion := True\<rparr>"] h
  show ?thesis by simp
qed

section \<open>Clearing the statistics\<close>

text \<open>
  C2. \<^verbatim>\<open>clearStats\<close> resets the aggregate counters and the per-file map; the
  specification adds that it always writes the durable snapshot at once, past the
  change detection of \<^verbatim>\<open>saveStatsToFile\<close>. What the code does, for every host, time and
  state: the statistics are the empty ones, the only effect added is the reset of the
  quick-reload slot, so \<^verbatim>\<open>fs.writeFileSync\<close> is never called, and the pending lines keep
  their value. (\<^verbatim>\<open>lastSavedStats\<close> is set to the serialisation of the new statistics just
  before \<^verbatim>\<open>saveStatsToFile\<close> compares the two.)
\<close>

theorem clearStats_writes_nothing:
  "stats (clearStats h now now' s) = emptyStats now
   \<and> effects (clearStats h now now' s) = effects s @ [GlobalStateUpdate None]
   \<and> pendingCopilotLines (clearStats h now now' s) = pendingCopilotLines s"
  by (simp add: clearStats_def saveStatsToFile_def Let_def split: option.splits)

text \<open>One file with 3 lines, 1 of them attributed, 2 lines pending, nothing written so
  far, in a workspace whose file system accepts writes: \<^verbatim>\<open>saveStatsToFile\<close> alone would
  write the snapshot, \<^verbatim>\<open>clearStats\<close> does not.\<close>

theorem clearStats_writes_nothing_witness:
  "effects (saveStatsToFile exHost ''2024-01-02'' (exTracker (exStats 3 1 3 1) 2)) \<noteq> []
   \<and> effects (clearStats exHost ''2024-01-02'' ''2024-01-02'' (exTracker (exStats 3 1 3 1) 2))
     = [GlobalStateUpdate None]
   \<and> pendingCopilotLines
       (clearStats exHost ''2024-01-02'' ''2024-01-02'' (exTracker (exStats 3 1 3 1) 2)) = 2"
proof -
  have "effects (saveStatsToFile exHost ''2024-01-02'' (exTracker (exStats 3 1 3 1) 2)) \<noteq> []"
    by code_simp
  with clearStats_writes_nothing[of exHost "''2024-01-02''" "''2024-01-02''"
      "exTracker (exStats 3 1 3 1) 2"]
  show ?thesis by (simp add: exTracker_def)
qed

end
